theory Spec2Isabelle
  imports Complex_Main
begin

section \<open>Python values and exceptions\<close>

text \<open>
  A Python \<^verbatim>\<open>str\<close> is a sequence of Unicode code points. It is modelled as a list
  of natural numbers, so that the non-ASCII payloads of the test suite and the
  surrogate pairs of the JSON encoder are in the model. A literal is written
  \<open>str ''...''\<close>, a single character \<open>ch CHR ''x''\<close> or by its code.
\<close>

type_synonym pystr = "nat list"

abbreviation (input) str :: "string \<Rightarrow> pystr" where
  "str s \<equiv> map of_char s"

abbreviation (input) ch :: "char \<Rightarrow> nat" where
  "ch c \<equiv> of_char c"

text \<open>
  The exceptions that the modelled code raises, catches or lets through; a
  \<^verbatim>\<open>raise\<close> is an \<open>Inl\<close> of this type. \<open>NotModelled\<close> is not a Python
  exception: it marks the one place where the model stops short of the library
  (the text of a finite float, see \<open>json_dumps\<close>).
\<close>

datatype exn =
    KeyError
  | TypeError
  | ValueError
  | JSONDecodeError
  | RecursionError
  | UnicodeDecodeError
  | UnicodeEncodeError
  | TimeoutError
  | RuntimeError
  | AssertionError
  | ZeroDivisionError
  | BrokerError
  | NotModelled

text \<open>
  A float obtained from a JSON number is kept as the exact value of its decimal
  literal. The modelled code never computes with one; it only tests its truth
  value (\<^verbatim>\<open>msg_id or ...\<close>), and the literal denotes the double \<open>0.0\<close> exactly
  when its magnitude is at most \<open>2 ^ -1075\<close> (round to nearest, ties to even).
\<close>

datatype pyfloat = FloatLit rat | FloatNaN | FloatInf bool

text \<open>
  The values that configuration dictionaries and decoded JSON documents hold. A
  dictionary is an association list with distinct keys in insertion order, read
  with \<open>map_of\<close>.
\<close>

datatype pyval =
    PNone
  | PBool bool
  | PInt int
  | PFloat pyfloat
  | PStr pystr
  | PList "pyval list"
  | PDict "(pystr \<times> pyval) list"

text \<open>Python's truth value of an object, as \<^verbatim>\<open>x or y\<close> tests it.\<close>

fun truthy :: "pyval \<Rightarrow> bool" where
  "truthy PNone = False"
| "truthy (PBool b) = b"
| "truthy (PInt i) = (i \<noteq> 0)"
| "truthy (PFloat (FloatLit q)) = (\<bar>q\<bar> > 1 / 2 ^ 1075)"
| "truthy (PFloat _) = True"
| "truthy (PStr s) = (s \<noteq> [])"
| "truthy (PList xs) = (xs \<noteq> [])"
| "truthy (PDict d) = (d \<noteq> [])"

text \<open>
  \<^verbatim>\<open>value[k]\<close> with a string \<open>k\<close>: a dictionary raises KeyError on a missing key;
  every other value raises TypeError (a string or a list wants integer indices,
  the rest is not subscriptable).
\<close>

fun getitem :: "pyval \<Rightarrow> pystr \<Rightarrow> exn + pyval" where
  "getitem (PDict d) k = (case map_of d k of None \<Rightarrow> Inl KeyError | Some v \<Rightarrow> Inr v)"
| "getitem _ k = Inl TypeError"

text \<open>\<^verbatim>\<open>d[k] = v\<close>: an existing key keeps its place, a new one goes last.\<close>

fun dict_set :: "pystr \<Rightarrow> pyval \<Rightarrow> (pystr \<times> pyval) list \<Rightarrow> (pystr \<times> pyval) list" where
  "dict_set k v [] = [(k, v)]"
| "dict_set k v ((k', v') # d) =
     (if k = k' then (k, v) # d else (k', v') # dict_set k v d)"

section \<open>Configuration provider (src/utils/config.py)\<close>

text \<open>
  \<^verbatim>\<open>key.split(".")\<close>: the pieces between the separators, empty pieces kept, so
  the result is never the empty list (\<^verbatim>\<open>"".split(".") == [""]\<close>).
\<close>

fun split_on :: "nat \<Rightarrow> pystr \<Rightarrow> pystr list" where
  "split_on sep [] = [[]]"
| "split_on sep (c # cs) =
     (if c = sep then [] # split_on sep cs
      else (case split_on sep cs of
              [] \<Rightarrow> [[c]]
            | w # ws \<Rightarrow> (c # w) # ws))"

text \<open>The loop \<^verbatim>\<open>for k in keys: value = value[k]\<close> of \<^verbatim>\<open>Config.get\<close>.\<close>

fun traverse :: "pyval \<Rightarrow> pystr list \<Rightarrow> exn + pyval" where
  "traverse v [] = Inr v"
| "traverse v (k # ks) =
     (case getitem v k of Inl e \<Rightarrow> Inl e | Inr v' \<Rightarrow> traverse v' ks)"

record Config =
  config :: "(pystr \<times> pyval) list"

text \<open>
  \<^verbatim>\<open>Config.get(key, default)\<close>. The result is paired with the object after the
  call. \<^verbatim>\<open>except (KeyError, TypeError)\<close> catches these two exceptions only; any
  other would reach the caller.
\<close>

definition Config_get :: "Config \<Rightarrow> pystr \<Rightarrow> pyval \<Rightarrow> (exn + pyval) \<times> Config" where
  "Config_get self key dflt =
     (let keys = split_on (ch CHR ''.'') key;
          v = PDict (config self)
      in case traverse v keys of
           Inr r \<Rightarrow> (Inr r, self)
         | Inl KeyError \<Rightarrow> (Inr dflt, self)
         | Inl TypeError \<Rightarrow> (Inr dflt, self)
         | Inl e \<Rightarrow> (Inl e, self))"

text \<open>\<^verbatim>\<open>Config._load_defaults\<close>: the configuration before any override.\<close>

definition load_defaults :: Config where
  "load_defaults = \<lparr> config =
     [ (str ''app'',
          PDict [ (str ''name'', PStr (str ''finovatex'')),
                  (str ''version'', PStr (str ''0.1.0'')),
                  (str ''debug'', PBool False),
                  (str ''port'', PInt 8080) ]),
       (str ''database'',
          PDict [ (str ''host'', PStr (str ''localhost'')),
                  (str ''port'', PInt 5432),
                  (str ''name'', PStr (str ''finovatex'')),
                  (str ''user'', PStr (str ''postgres'')),
                  (str ''password'', PStr []) ]),
       (str ''redis'',
          PDict [ (str ''host'', PStr (str ''localhost'')),
                  (str ''port'', PInt 6379),
                  (str ''db'', PInt 0) ]),
       (str ''logging'',
          PDict [ (str ''level'', PStr (str ''INFO'')),
                  (str ''format'',
                     PStr (str ''%(asctime)s - %(name)s - %(levelname)s - %(message)s'')) ]),
       (str ''monitoring'',
          PDict [ (str ''prometheus_port'', PInt 9090),
                  (str ''metrics_enabled'', PBool True) ]) ] \<rparr>"

section \<open>Timestamps: \<^verbatim>\<open>datetime.isoformat\<close> and \<^verbatim>\<open>datetime.fromisoformat\<close>\<close>

subsection \<open>Decimal numbers\<close>

definition is_digit :: "nat \<Rightarrow> bool" where
  "is_digit c = (ch CHR ''0'' \<le> c \<and> c \<le> ch CHR ''9'')"

text \<open>The last \<open>w\<close> decimal digits of \<open>n\<close>, most significant first.\<close>

fun digits :: "nat \<Rightarrow> nat \<Rightarrow> pystr" where
  "digits 0 n = []"
| "digits (Suc w) n = digits w (n div 10) @ [ch CHR ''0'' + n mod 10]"

text \<open>\<^verbatim>\<open>str(n)\<close> of a natural number.\<close>

function dec :: "nat \<Rightarrow> pystr" where
  "dec n = (if n < 10 then [ch CHR ''0'' + n] else dec (n div 10) @ [ch CHR ''0'' + n mod 10])"
  by pat_completeness auto
termination
  by (relation "measure id") auto

declare dec.simps [simp del]

text \<open>\<^verbatim>\<open>"%0wd" % n\<close>: zeros in front up to width \<open>w\<close>, nothing cut off.\<close>

definition zpad :: "nat \<Rightarrow> nat \<Rightarrow> pystr" where
  "zpad w n = (let ds = dec n in replicate (w - length ds) (ch CHR ''0'') @ ds)"

text \<open>A field of a timestamp: one or more ASCII digits and nothing else.\<close>

definition parse_digits :: "pystr \<Rightarrow> nat option" where
  "parse_digits s =
     (if s \<noteq> [] \<and> list_all is_digit s
      then Some (fold (\<lambda>c a. a * 10 + (c - ch CHR ''0'')) s 0) else None)"

subsection \<open>The datetime object\<close>

text \<open>
  \<open>tzinfo\<close> is the UTC offset in microseconds of an aware datetime and \<open>None\<close>
  for a naive one (what \<^verbatim>\<open>datetime.now()\<close> returns). The only thing that
  \<^verbatim>\<open>isoformat\<close> reads of a time zone is this offset.
\<close>

record datetime =
  year :: nat
  month :: nat
  day :: nat
  hour :: nat
  minute :: nat
  second :: nat
  microsecond :: nat
  tzinfo :: "int option"

definition is_leap :: "nat \<Rightarrow> bool" where
  "is_leap y = (y mod 4 = 0 \<and> (y mod 100 \<noteq> 0 \<or> y mod 400 = 0))"

definition days_in_month :: "nat \<Rightarrow> nat \<Rightarrow> nat" where
  "days_in_month y m =
     (if m = 2 then (if is_leap y then 29 else 28)
      else if m = 4 \<or> m = 6 \<or> m = 9 \<or> m = 11 then 30 else 31)"

text \<open>An offset is strictly between minus and plus 24 hours.\<close>

definition valid_offset :: "int \<Rightarrow> bool" where
  "valid_offset off = (- 86400000000 < off \<and> off < 86400000000)"

text \<open>The ranges that the constructor of \<^verbatim>\<open>datetime\<close> checks.\<close>

definition valid_datetime :: "datetime \<Rightarrow> bool" where
  "valid_datetime d =
     (1 \<le> year d \<and> year d \<le> 9999 \<and> 1 \<le> month d \<and> month d \<le> 12
      \<and> 1 \<le> day d \<and> day d \<le> days_in_month (year d) (month d)
      \<and> hour d < 24 \<and> minute d < 60 \<and> second d < 60 \<and> microsecond d < 1000000
      \<and> (case tzinfo d of None \<Rightarrow> True | Some off \<Rightarrow> valid_offset off))"

definition datetime_new ::
  "nat \<Rightarrow> nat \<Rightarrow> nat \<Rightarrow> nat \<Rightarrow> nat \<Rightarrow> nat \<Rightarrow> nat \<Rightarrow> int option \<Rightarrow> exn + datetime" where
  "datetime_new y mo d h mi s us tz =
     (let dt = \<lparr> year = y, month = mo, day = d, hour = h, minute = mi, second = s,
                  microsecond = us, tzinfo = tz \<rparr>
      in if valid_datetime dt then Inr dt else Inl ValueError)"

subsection \<open>Formatting\<close>

text \<open>
  \<^verbatim>\<open>isoformat()\<close> with its defaults (\<^verbatim>\<open>sep='T'\<close>, \<^verbatim>\<open>timespec='auto'\<close>): the
  fraction is printed, with six digits, only when the microsecond is not zero;
  the offset is printed as \<^verbatim>\<open>+HH:MM\<close>, with seconds and microseconds only when
  they are not zero.
\<close>

definition format_time :: "nat \<Rightarrow> nat \<Rightarrow> nat \<Rightarrow> nat \<Rightarrow> pystr" where
  "format_time hh mm ss us =
     zpad 2 hh @ str '':'' @ zpad 2 mm @ str '':'' @ zpad 2 ss
     @ (if us \<noteq> 0 then str ''.'' @ zpad 6 us else [])"

definition format_offset :: "int option \<Rightarrow> pystr" where
  "format_offset off =
     (case off of
        None \<Rightarrow> []
      | Some o' \<Rightarrow>
          (let sign = (if o' < 0 then ch CHR ''-'' else ch CHR ''+'');
               a = nat \<bar>o'\<bar>;
               hh = a div 3600000000;
               r = a mod 3600000000;
               mm = r div 60000000;
               ss = r mod 60000000
           in sign # zpad 2 hh @ str '':'' @ zpad 2 mm
              @ (if ss \<noteq> 0
                 then str '':'' @ zpad 2 (ss div 1000000)
                      @ (if ss mod 1000000 \<noteq> 0 then str ''.'' @ zpad 6 (ss mod 1000000) else [])
                 else [])))"

definition isoformat :: "datetime \<Rightarrow> pystr" where
  "isoformat d =
     zpad 4 (year d) @ str ''-'' @ zpad 2 (month d) @ str ''-'' @ zpad 2 (day d) @ str ''T''
     @ format_time (hour d) (minute d) (second d) (microsecond d)
     @ format_offset (tzinfo d)"

subsection \<open>Parsing\<close>

text \<open>
  \<^verbatim>\<open>fromisoformat\<close> reads the format that the library documents as the inverse
  of \<^verbatim>\<open>isoformat\<close> (Python 3.7 to 3.10):
  \<^verbatim>\<open>YYYY-MM-DD[*HH[:MM[:SS[.fff[fff]]]][+HH:MM[:SS[.ffffff]]]]\<close>, where \<^verbatim>\<open>*\<close>
  is any one character, with ASCII digits only in the fields. Later versions of
  the library accept further ISO 8601 spellings; they agree with this one on
  every string that \<^verbatim>\<open>isoformat\<close> produces. The structure follows the library:
  the date is the first ten characters, the time starts at the twelfth, and the
  offset starts at the first minus sign of the time part or, when there is none,
  at its first plus sign.
\<close>

definition parse_isoformat_date :: "pystr \<Rightarrow> (nat \<times> nat \<times> nat) option" where
  "parse_isoformat_date s =
     (if length s = 10 \<and> s ! 4 = ch CHR ''-'' \<and> s ! 7 = ch CHR ''-''
      then (case (parse_digits (take 4 s), parse_digits (take 2 (drop 5 s)),
                  parse_digits (take 2 (drop 8 s))) of
              (Some y, Some m, Some d) \<Rightarrow> Some (y, m, d)
            | _ \<Rightarrow> None)
      else None)"

definition parse_hh_mm_ss_ff :: "pystr \<Rightarrow> (nat \<times> nat \<times> nat \<times> nat) option" where
  "parse_hh_mm_ss_ff t =
     (let n = length t in
      if \<not> (n = 2 \<or> n = 5 \<or> n = 8 \<or> n = 12 \<or> n = 15) then None
      else if 5 \<le> n \<and> t ! 2 \<noteq> ch CHR '':'' then None
      else if 8 \<le> n \<and> t ! 5 \<noteq> ch CHR '':'' then None
      else if 12 \<le> n \<and> t ! 8 \<noteq> ch CHR ''.'' then None
      else
        (case (parse_digits (take 2 t),
               (if 5 \<le> n then parse_digits (take 2 (drop 3 t)) else Some 0),
               (if 8 \<le> n then parse_digits (take 2 (drop 6 t)) else Some 0),
               (if n = 12 then map_option (\<lambda>f. f * 1000) (parse_digits (drop 9 t))
                else if n = 15 then parse_digits (drop 9 t) else Some 0)) of
           (Some hh, Some mm, Some ss, Some ff) \<Rightarrow> Some (hh, mm, ss, ff)
         | _ \<Rightarrow> None))"

definition parse_isoformat_time ::
  "pystr \<Rightarrow> (nat \<times> nat \<times> nat \<times> nat \<times> int option) option" where
  "parse_isoformat_time t =
     (if length t < 2 then None
      else
        (case (if ch CHR ''-'' \<in> set t then Some (ch CHR ''-'')
               else if ch CHR ''+'' \<in> set t then Some (ch CHR ''+'') else None) of
           None \<Rightarrow>
             (case parse_hh_mm_ss_ff t of
                None \<Rightarrow> None
              | Some (hh, mm, ss, ff) \<Rightarrow> Some (hh, mm, ss, ff, None))
         | Some c \<Rightarrow>
             (let timestr = takeWhile (\<lambda>x. x \<noteq> c) t;
                  tzstr = tl (dropWhile (\<lambda>x. x \<noteq> c) t)
              in case parse_hh_mm_ss_ff timestr of
                   None \<Rightarrow> None
                 | Some (hh, mm, ss, ff) \<Rightarrow>
                     if \<not> (length tzstr = 5 \<or> length tzstr = 8 \<or> length tzstr = 15) then None
                     else
                       (case parse_hh_mm_ss_ff tzstr of
                          None \<Rightarrow> None
                        | Some (th, tm, ts, tf) \<Rightarrow>
                            (let td = (th * 3600 + tm * 60 + ts) * 1000000 + tf
                             in Some (hh, mm, ss, ff,
                                  Some (if c = ch CHR ''-'' then - int td else int td)))))))"

definition fromisoformat :: "pystr \<Rightarrow> exn + datetime" where
  "fromisoformat date_string =
     (let dstr = take 10 date_string;
          tstr = drop 11 date_string
      in case parse_isoformat_date dstr of
           None \<Rightarrow> Inl ValueError
         | Some (y, mo, d) \<Rightarrow>
             if tstr = [] then datetime_new y mo d 0 0 0 0 None
             else
               (case parse_isoformat_time tstr of
                  None \<Rightarrow> Inl ValueError
                | Some (hh, mm, ss, ff, tz) \<Rightarrow> datetime_new y mo d hh mm ss ff tz))"

text \<open>
  The call \<^verbatim>\<open>datetime.fromisoformat(data["timestamp"])\<close> on a decoded JSON
  value: anything but a string is a TypeError.
\<close>

definition datetime_fromisoformat :: "pyval \<Rightarrow> exn + datetime" where
  "datetime_fromisoformat v = (case v of PStr s \<Rightarrow> fromisoformat s | _ \<Rightarrow> Inl TypeError)"

section \<open>JSON: \<^verbatim>\<open>json.dumps\<close> and \<^verbatim>\<open>json.loads\<close>\<close>

subsection \<open>Encoder\<close>

text \<open>
  \<^verbatim>\<open>json.dumps(obj)\<close> with its defaults: \<^verbatim>\<open>ensure_ascii=True\<close>, the separators
  \<^verbatim>\<open>", "\<close> and \<^verbatim>\<open>": "\<close>, keys in the order of the dictionary. Inside a
  string, the backslash, the double quote and the five short control escapes are
  written with a backslash; the other characters from space to tilde stand for
  themselves; every other code point is written \<^verbatim>\<open>\uXXXX\<close>, as a surrogate pair
  when it lies beyond the basic plane.
\<close>

definition hexdigit :: "nat \<Rightarrow> nat" where
  "hexdigit v = (if v < 10 then ch CHR ''0'' + v else ch CHR ''a'' + (v - 10))"

text \<open>\<^verbatim>\<open>'{0:04x}'.format(n)\<close> for \<open>n < 0x10000\<close>.\<close>

definition hex4_format :: "nat \<Rightarrow> pystr" where
  "hex4_format n =
     [hexdigit (n div 4096 mod 16), hexdigit (n div 256 mod 16),
      hexdigit (n div 16 mod 16), hexdigit (n mod 16)]"

definition escape_char :: "nat \<Rightarrow> pystr" where
  "escape_char c =
     (if c = 0x5C then [0x5C, 0x5C]
      else if c = 0x22 then [0x5C, 0x22]
      else if c = 0x08 then [0x5C, ch CHR ''b'']
      else if c = 0x0C then [0x5C, ch CHR ''f'']
      else if c = 0x0A then [0x5C, ch CHR ''n'']
      else if c = 0x0D then [0x5C, ch CHR ''r'']
      else if c = 0x09 then [0x5C, ch CHR ''t'']
      else if 0x20 \<le> c \<and> c \<le> 0x7E then [c]
      else if c < 0x10000 then [0x5C, ch CHR ''u''] @ hex4_format c
      else (let n = c - 0x10000;
                s1 = 0xD800 + (n div 1024) mod 1024;
                s2 = 0xDC00 + n mod 1024
            in [0x5C, ch CHR ''u''] @ hex4_format s1 @ [0x5C, ch CHR ''u''] @ hex4_format s2))"

definition encode_basestring_ascii :: "pystr \<Rightarrow> pystr" where
  "encode_basestring_ascii s = 0x22 # concat (map escape_char s) @ [0x22]"

definition int_repr :: "int \<Rightarrow> pystr" where
  "int_repr i = (if i < 0 then ch CHR ''-'' # dec (nat (- i)) else dec (nat i))"

fun join :: "pystr \<Rightarrow> pystr list \<Rightarrow> pystr" where
  "join sep [] = []"
| "join sep [x] = x"
| "join sep (x # y # ys) = x @ sep @ join sep (y # ys)"

text \<open>The first error of a list of results, or all the values.\<close>

fun sequence :: "('e + 'a) list \<Rightarrow> 'e + 'a list" where
  "sequence [] = Inr []"
| "sequence (x # xs) =
     (case x of
        Inl e \<Rightarrow> Inl e
      | Inr v \<Rightarrow> (case sequence xs of Inl e \<Rightarrow> Inl e | Inr vs \<Rightarrow> Inr (v # vs)))"

text \<open>
  The text of a finite float is \<^verbatim>\<open>float.__repr__\<close>, the shortest decimal that
  reads back as the same double; that function is outside this model, and the
  encoder answers \<open>NotModelled\<close> there. No envelope built by the modelled code
  holds a float.
\<close>

fun json_dumps :: "pyval \<Rightarrow> exn + pystr" where
  "json_dumps PNone = Inr (str ''null'')"
| "json_dumps (PBool b) = Inr (if b then str ''true'' else str ''false'')"
| "json_dumps (PInt i) = Inr (int_repr i)"
| "json_dumps (PFloat FloatNaN) = Inr (str ''NaN'')"
| "json_dumps (PFloat (FloatInf neg)) = Inr (if neg then str ''-Infinity'' else str ''Infinity'')"
| "json_dumps (PFloat (FloatLit q)) = Inl NotModelled"
| "json_dumps (PStr s) = Inr (encode_basestring_ascii s)"
| "json_dumps (PList xs) =
     (case sequence (map json_dumps xs) of
        Inl e \<Rightarrow> Inl e
      | Inr items \<Rightarrow> Inr (str ''['' @ join (str '', '') items @ str '']''))"
| "json_dumps (PDict d) =
     (case sequence (map (\<lambda>(k, v). case json_dumps v of
                                       Inl e \<Rightarrow> Inl e
                                     | Inr t \<Rightarrow> Inr (encode_basestring_ascii k @ str '': '' @ t)) d) of
        Inl e \<Rightarrow> Inl e
      | Inr items \<Rightarrow> Inr (str ''{'' @ join (str '', '') items @ str ''}''))"

subsection \<open>Decoder\<close>

text \<open>
  \<^verbatim>\<open>json.loads(s)\<close> on a \<^verbatim>\<open>str\<close>, with its defaults (\<^verbatim>\<open>strict=True\<close>, no
  hooks), after the scanner of the library: whitespace is space, tab, line feed
  and carriage return; a string ends at the first unescaped double quote and
  may not hold a raw control character; a number is the longest prefix that
  matches \<^verbatim>\<open>-?(0|[1-9][0-9]*)(\.[0-9]+)?([eE][-+]?[0-9]+)?\<close>; \<^verbatim>\<open>NaN\<close>,
  \<^verbatim>\<open>Infinity\<close> and \<^verbatim>\<open>-Infinity\<close> are accepted; a key that occurs twice keeps
  its first place and its last value.
\<close>

definition is_ws :: "nat \<Rightarrow> bool" where
  "is_ws c = (c = 0x20 \<or> c = 0x09 \<or> c = 0x0A \<or> c = 0x0D)"

definition skip_ws :: "pystr \<Rightarrow> pystr" where
  "skip_ws s = dropWhile is_ws s"

definition hexval :: "nat \<Rightarrow> nat option" where
  "hexval c =
     (if ch CHR ''0'' \<le> c \<and> c \<le> ch CHR ''9'' then Some (c - ch CHR ''0'')
      else if ch CHR ''a'' \<le> c \<and> c \<le> ch CHR ''f'' then Some (c - ch CHR ''a'' + 10)
      else if ch CHR ''A'' \<le> c \<and> c \<le> ch CHR ''F'' then Some (c - ch CHR ''A'' + 10)
      else None)"

text \<open>The four hexadecimal digits after \<^verbatim>\<open>\u\<close>.\<close>

definition decode_uXXXX :: "pystr \<Rightarrow> nat option" where
  "decode_uXXXX s =
     (case s of
        a # b # c # d # _ \<Rightarrow>
          (case (hexval a, hexval b, hexval c, hexval d) of
             (Some w, Some x, Some y, Some z) \<Rightarrow> Some (((w * 16 + x) * 16 + y) * 16 + z)
           | _ \<Rightarrow> None)
      | _ \<Rightarrow> None)"

definition backslash :: "nat \<Rightarrow> nat option" where
  "backslash e =
     (if e = 0x22 then Some 0x22
      else if e = 0x5C then Some 0x5C
      else if e = ch CHR ''/'' then Some (ch CHR ''/'')
      else if e = ch CHR ''b'' then Some 0x08
      else if e = ch CHR ''f'' then Some 0x0C
      else if e = ch CHR ''n'' then Some 0x0A
      else if e = ch CHR ''r'' then Some 0x0D
      else if e = ch CHR ''t'' then Some 0x09
      else None)"

definition cons_char :: "nat \<Rightarrow> (pystr \<times> pystr) option \<Rightarrow> (pystr \<times> pystr) option" where
  "cons_char c r = (case r of None \<Rightarrow> None | Some (s, rest) \<Rightarrow> Some (c # s, rest))"

text \<open>
  \<open>scanstring s\<close> reads a string whose opening quote has been consumed and
  returns its characters and the text after its closing quote. A high surrogate
  escape followed by a low surrogate escape is one code point.
\<close>

fun scanstring :: "pystr \<Rightarrow> (pystr \<times> pystr) option" where
  "scanstring [] = None"
| "scanstring (c # cs) =
     (if c = 0x22 then Some ([], cs)
      else if c = 0x5C then
        (case cs of
           [] \<Rightarrow> None
         | e # es \<Rightarrow>
             if e = ch CHR ''u'' then
               (case decode_uXXXX es of
                  None \<Rightarrow> None
                | Some uni \<Rightarrow>
                    if 0xD800 \<le> uni \<and> uni \<le> 0xDBFF \<and> take 2 (drop 4 es) = [0x5C, ch CHR ''u'']
                    then (case decode_uXXXX (drop 6 es) of
                            None \<Rightarrow> None
                          | Some uni2 \<Rightarrow>
                              if 0xDC00 \<le> uni2 \<and> uni2 \<le> 0xDFFF
                              then cons_char (0x10000 + ((uni - 0xD800) * 1024 + (uni2 - 0xDC00)))
                                     (scanstring (drop 10 es))
                              else cons_char uni (scanstring (drop 4 es)))
                    else cons_char uni (scanstring (drop 4 es)))
             else (case backslash e of
                     None \<Rightarrow> None
                   | Some c' \<Rightarrow> cons_char c' (scanstring es)))
      else if c < 0x20 then None
      else cons_char c (scanstring cs))"

definition digits_val :: "pystr \<Rightarrow> nat" where
  "digits_val ds = fold (\<lambda>c a. a * 10 + (c - ch CHR ''0'')) ds 0"

definition match_int :: "pystr \<Rightarrow> (bool \<times> pystr \<times> pystr) option" where
  "match_int s =
     (let (neg, t) = (case s of [] \<Rightarrow> (False, s)
                      | c # cs \<Rightarrow> if c = ch CHR ''-'' then (True, cs) else (False, s))
      in case t of
           [] \<Rightarrow> None
         | d # ds \<Rightarrow>
             if d = ch CHR ''0'' then Some (neg, [d], ds)
             else if ch CHR ''1'' \<le> d \<and> d \<le> ch CHR ''9''
             then Some (neg, d # takeWhile is_digit ds, dropWhile is_digit ds)
             else None)"

definition match_frac :: "pystr \<Rightarrow> (pystr \<times> pystr) option" where
  "match_frac s =
     (case s of
        c # d # ds \<Rightarrow>
          if c = ch CHR ''.'' \<and> is_digit d
          then Some (takeWhile is_digit (d # ds), dropWhile is_digit (d # ds))
          else None
      | _ \<Rightarrow> None)"

definition match_exp :: "pystr \<Rightarrow> (bool \<times> pystr \<times> pystr) option" where
  "match_exp s =
     (case s of
        [] \<Rightarrow> None
      | e # t \<Rightarrow>
          if e = ch CHR ''e'' \<or> e = ch CHR ''E'' then
            (let (neg, u) = (case t of [] \<Rightarrow> (False, t)
                             | c # cs \<Rightarrow> if c = ch CHR ''-'' then (True, cs)
                                        else if c = ch CHR ''+'' then (False, cs)
                                        else (False, t))
             in case u of
                  [] \<Rightarrow> None
                | d # ds \<Rightarrow> if is_digit d
                            then Some (neg, takeWhile is_digit u, dropWhile is_digit u)
                            else None)
          else None)"

definition float_of_literal :: "bool \<Rightarrow> pystr \<Rightarrow> pystr \<Rightarrow> (bool \<times> pystr) option \<Rightarrow> rat" where
  "float_of_literal neg ip fp ex =
     (let m = of_nat (digits_val ip) + of_nat (digits_val fp) / 10 ^ length fp;
          v = (case ex of
                 None \<Rightarrow> m
               | Some (eneg, ed) \<Rightarrow>
                   if eneg then m / 10 ^ digits_val ed else m * 10 ^ digits_val ed)
      in if neg then - v else v)"

definition match_number :: "pystr \<Rightarrow> (pyval \<times> pystr) option" where
  "match_number s =
     (case match_int s of
        None \<Rightarrow> None
      | Some (neg, ip, r1) \<Rightarrow>
          (let (fp, r2) = (case match_frac r1 of None \<Rightarrow> (None, r1)
                           | Some (f, r) \<Rightarrow> (Some f, r));
               (ex, r3) = (case match_exp r2 of None \<Rightarrow> (None, r2)
                           | Some (eneg, ed, r) \<Rightarrow> (Some (eneg, ed), r))
           in if fp = None \<and> ex = None
              then Some (PInt (if neg then - int (digits_val ip) else int (digits_val ip)), r3)
              else Some (PFloat (FloatLit (float_of_literal neg ip
                                             (case fp of None \<Rightarrow> [] | Some f \<Rightarrow> f) ex)), r3)))"

text \<open>\<^verbatim>\<open>dict(pairs)\<close>.\<close>

definition dict_of_pairs :: "(pystr \<times> pyval) list \<Rightarrow> (pystr \<times> pyval) list" where
  "dict_of_pairs pairs = fold (\<lambda>(k, v) d. dict_set k v d) pairs []"

text \<open>
  The scanner. \<open>scan_once\<close> reads one value at the head of the text;
  \<open>JSONObject\<close> is the member loop of an object, entered after the opening quote
  of a key, and \<open>JSONArray\<close> the element loop of an array, entered at a value;
  both carry what they have read so far. Every call takes one unit of fuel, and
  \<open>json_loads\<close> starts with more units than the text has characters; a run that
  uses them up ends in \<open>RecursionError\<close>, the error of the library for nesting
  that is too deep for the interpreter (which the library raises at a depth the
  model does not fix).
\<close>

fun scan_once :: "nat \<Rightarrow> pystr \<Rightarrow> exn + (pyval \<times> pystr)"
  and JSONObject :: "nat \<Rightarrow> pystr \<Rightarrow> (pystr \<times> pyval) list \<Rightarrow> exn + (pyval \<times> pystr)"
  and JSONArray :: "nat \<Rightarrow> pystr \<Rightarrow> pyval list \<Rightarrow> exn + (pyval \<times> pystr)"
where
  "scan_once 0 s = Inl RecursionError"
| "scan_once (Suc n) s =
     (case s of
        [] \<Rightarrow> Inl JSONDecodeError
      | c # cs \<Rightarrow>
          if c = 0x22 then
            (case scanstring cs of
               None \<Rightarrow> Inl JSONDecodeError
             | Some (v, rest) \<Rightarrow> Inr (PStr v, rest))
          else if c = ch CHR ''{'' then
            (case skip_ws cs of
               [] \<Rightarrow> Inl JSONDecodeError
             | d # ds \<Rightarrow>
                 if d = ch CHR ''}'' then Inr (PDict [], ds)
                 else if d = 0x22 then JSONObject n ds []
                 else Inl JSONDecodeError)
          else if c = ch CHR ''['' then
            (case skip_ws cs of
               [] \<Rightarrow> Inl JSONDecodeError
             | d # ds \<Rightarrow>
                 if d = ch CHR '']'' then Inr (PList [], ds)
                 else JSONArray n (d # ds) [])
          else if take 4 s = str ''null'' then Inr (PNone, drop 4 s)
          else if take 4 s = str ''true'' then Inr (PBool True, drop 4 s)
          else if take 5 s = str ''false'' then Inr (PBool False, drop 5 s)
          else
            (case match_number s of
               Some r \<Rightarrow> Inr r
             | None \<Rightarrow>
                 if take 3 s = str ''NaN'' then Inr (PFloat FloatNaN, drop 3 s)
                 else if take 8 s = str ''Infinity'' then Inr (PFloat (FloatInf False), drop 8 s)
                 else if take 9 s = str ''-Infinity'' then Inr (PFloat (FloatInf True), drop 9 s)
                 else Inl JSONDecodeError))"
| "JSONObject 0 s pairs = Inl RecursionError"
| "JSONObject (Suc n) s pairs =
     (case scanstring s of
        None \<Rightarrow> Inl JSONDecodeError
      | Some (key, r1) \<Rightarrow>
          (case skip_ws r1 of
             [] \<Rightarrow> Inl JSONDecodeError
           | c # r2 \<Rightarrow>
               if c \<noteq> ch CHR '':'' then Inl JSONDecodeError
               else
                 (case scan_once n (skip_ws r2) of
                    Inl e \<Rightarrow> Inl e
                  | Inr (v, r3) \<Rightarrow>
                      (case skip_ws r3 of
                         [] \<Rightarrow> Inl JSONDecodeError
                       | d # r4 \<Rightarrow>
                           if d = ch CHR ''}'' then Inr (PDict (dict_of_pairs (pairs @ [(key, v)])), r4)
                           else if d = ch CHR '','' then
                             (case skip_ws r4 of
                                [] \<Rightarrow> Inl JSONDecodeError
                              | q # r5 \<Rightarrow>
                                  if q = 0x22 then JSONObject n r5 (pairs @ [(key, v)])
                                  else Inl JSONDecodeError)
                           else Inl JSONDecodeError))))"
| "JSONArray 0 s vals = Inl RecursionError"
| "JSONArray (Suc n) s vals =
     (case scan_once n s of
        Inl e \<Rightarrow> Inl e
      | Inr (v, r1) \<Rightarrow>
          (case skip_ws r1 of
             [] \<Rightarrow> Inl JSONDecodeError
           | d # r2 \<Rightarrow>
               if d = ch CHR '']'' then Inr (PList (vals @ [v]), r2)
               else if d = ch CHR '','' then JSONArray n (skip_ws r2) (vals @ [v])
               else Inl JSONDecodeError))"

declare scan_once.simps [simp del] JSONObject.simps [simp del] JSONArray.simps [simp del]

text \<open>
  \<^verbatim>\<open>json.loads\<close>: a text that starts with a byte order mark is refused; after
  the value only whitespace may follow.
\<close>

definition json_loads :: "pystr \<Rightarrow> exn + pyval" where
  "json_loads s =
     (if take 1 s = [0xFEFF] then Inl JSONDecodeError
      else
        (case scan_once (Suc (length s)) (skip_ws s) of
           Inl e \<Rightarrow> Inl e
         | Inr (obj, rest) \<Rightarrow> if skip_ws rest = [] then Inr obj else Inl JSONDecodeError))"

section \<open>Message envelope (class \<^verbatim>\<open>TestMessage\<close>, tests/test_app_integration.py)\<close>

text \<open>
  The attributes of a \<^verbatim>\<open>TestMessage\<close>. Python checks no annotation: whatever
  the caller passes is stored, so the first three fields are arbitrary values.
  (The field names are those of the constructor's parameters; \<^verbatim>\<open>id\<close> and
  \<^verbatim>\<open>type\<close> are taken in HOL.)
\<close>

record TestMessage =
  msg_id :: pyval
  msg_type :: pyval
  payload :: pyval
  timestamp :: datetime

text \<open>
  What the constructor draws from its surroundings: the text of
  \<^verbatim>\<open>uuid.uuid4()\<close> and the reading of \<^verbatim>\<open>datetime.now()\<close>.
\<close>

record env =
  uuid4 :: pystr
  now :: datetime

text \<open>
  \<^verbatim>\<open>__init__\<close>: \<^verbatim>\<open>self.id = msg_id or str(uuid.uuid4())\<close> replaces every false
  value (\<^verbatim>\<open>None\<close>, the empty string, zero, an empty container) by a fresh
  identifier; \<^verbatim>\<open>self.timestamp = timestamp or datetime.now()\<close> replaces only
  \<^verbatim>\<open>None\<close>, since every datetime is true.
\<close>

definition TestMessage_init ::
  "env \<Rightarrow> pyval \<Rightarrow> pyval \<Rightarrow> pyval \<Rightarrow> datetime option \<Rightarrow> TestMessage" where
  "TestMessage_init e mid mtype pl ts =
     \<lparr> msg_id = (if truthy mid then mid else PStr (uuid4 e)),
       msg_type = mtype,
       payload = pl,
       timestamp = (case ts of Some t \<Rightarrow> t | None \<Rightarrow> now e) \<rparr>"

definition to_dict :: "TestMessage \<Rightarrow> (pystr \<times> pyval) list" where
  "to_dict self =
     [ (str ''id'', msg_id self),
       (str ''type'', msg_type self),
       (str ''payload'', payload self),
       (str ''timestamp'', PStr (isoformat (timestamp self))) ]"

definition to_json :: "TestMessage \<Rightarrow> exn + pystr" where
  "to_json self = json_dumps (PDict (to_dict self))"

text \<open>
  \<^verbatim>\<open>from_json\<close>: the arguments of the constructor call are evaluated from left to
  right, so the four subscripts come before the timestamp is parsed, and the
  first one that fails decides the exception.
\<close>

definition from_json :: "env \<Rightarrow> pystr \<Rightarrow> exn + TestMessage" where
  "from_json e json_str =
     (case json_loads json_str of
        Inl x \<Rightarrow> Inl x
      | Inr data \<Rightarrow>
          (case getitem data (str ''id'') of
             Inl x \<Rightarrow> Inl x
           | Inr i \<Rightarrow>
               (case getitem data (str ''type'') of
                  Inl x \<Rightarrow> Inl x
                | Inr t \<Rightarrow>
                    (case getitem data (str ''payload'') of
                       Inl x \<Rightarrow> Inl x
                     | Inr p \<Rightarrow>
                         (case getitem data (str ''timestamp'') of
                            Inl x \<Rightarrow> Inl x
                          | Inr ts \<Rightarrow>
                              (case datetime_fromisoformat ts of
                                 Inl x \<Rightarrow> Inl x
                               | Inr d \<Rightarrow> Inr (TestMessage_init e i t p (Some d))))))))"


text \<open>
  A valid envelope is one that the constructor builds from strings: the id is a
  string and not empty, type and payload are strings, the timestamp is a
  datetime that the library can hold. A string is a text of Unicode scalar
  values (a code point below \<open>0x110000\<close> that is no surrogate), which is what
  can travel as UTF-8.
\<close>

definition is_scalar :: "nat \<Rightarrow> bool" where
  "is_scalar c = (c < 0x110000 \<and> \<not> (0xD800 \<le> c \<and> c \<le> 0xDFFF))"

definition valid_text :: "pystr \<Rightarrow> bool" where
  "valid_text s = list_all is_scalar s"

definition valid_envelope :: "TestMessage \<Rightarrow> bool" where
  "valid_envelope m =
     ((case msg_id m of PStr s \<Rightarrow> s \<noteq> [] \<and> valid_text s | _ \<Rightarrow> False)
      \<and> (case msg_type m of PStr s \<Rightarrow> valid_text s | _ \<Rightarrow> False)
      \<and> (case payload m of PStr s \<Rightarrow> valid_text s | _ \<Rightarrow> False)
      \<and> valid_datetime (timestamp m))"

text \<open>Concrete surroundings and envelopes, for evaluation.\<close>

definition env0 :: env where
  "env0 = \<lparr> uuid4 = str ''123e4567-e89b-42d3-a456-426614174000'',
             now = \<lparr> year = 2025, month = 1, day = 2, hour = 3, minute = 4, second = 5,
                     microsecond = 6, tzinfo = None \<rparr> \<rparr>"

text \<open>
  An envelope with a payload beyond ASCII (two CJK characters, an emoji beyond
  the basic plane, a line feed and a double quote), a fraction of a second and
  an offset of minus five and a half hours.
\<close>

definition envelope0 :: TestMessage where
  "envelope0 =
     \<lparr> msg_id = PStr (str ''order-007''),
       msg_type = PStr (str ''market_data''),
       payload = PStr ([0x6D4B, 0x8BD5, 0x1F600, 0x0A, 0x22] @ str ''BTCUSDT''),
       timestamp = \<lparr> year = 2024, month = 2, day = 29, hour = 23, minute = 59, second = 58,
                     microsecond = 120000, tzinfo = Some (- 19800000000) \<rparr> \<rparr>"





definition wire_empty_id :: pystr where
  \<open>wire_empty_id =
     str ''{"id": "", "type": "t", "payload": "p", "timestamp": "2024-01-15T10:30:00"}''\<close>

section \<open>Properties of the configuration provider\<close>

lemma getitem_error: "getitem v k = Inl e \<Longrightarrow> e = KeyError \<or> e = TypeError"
  by (cases v) (auto split: option.splits)

lemma traverse_error: "traverse v ks = Inl e \<Longrightarrow> e = KeyError \<or> e = TypeError"
  by (induction ks arbitrary: v) (auto split: sum.splits dest: getitem_error)

text \<open>
  Claim C10. For every key string and every default, \<open>Config.get\<close> returns a
  value and never raises. When the dot-path traversal fails at some step (a key
  that is missing, or an intermediate value that is not a dictionary) the value
  returned is the default; when it succeeds the value found is returned. In both
  cases the stored configuration after the call is the one before it.
\<close>

theorem Config_get_total:
  "(\<exists>r. fst (Config_get self key dflt) = Inr r)
   \<and> (\<forall>e. traverse (PDict (config self)) (split_on (ch CHR ''.'') key) = Inl e
          \<longrightarrow> fst (Config_get self key dflt) = Inr dflt)
   \<and> (\<forall>r. traverse (PDict (config self)) (split_on (ch CHR ''.'') key) = Inr r
          \<longrightarrow> fst (Config_get self key dflt) = Inr r)
   \<and> snd (Config_get self key dflt) = self"
proof -
  let ?t = "traverse (PDict (config self)) (split_on (ch CHR ''.'') key)"
  show ?thesis
  proof (cases ?t)
    case (Inl e)
    then have "e = KeyError \<or> e = TypeError" by (rule traverse_error)
    with Inl show ?thesis by (auto simp: Config_get_def)
  next
    case (Inr r)
    then show ?thesis by (simp add: Config_get_def)
  qed
qed

text \<open>
  The theorem at the default configuration: a key that is there, a key whose
  first segment is missing (KeyError inside), and a path that walks into a
  string (TypeError inside).
\<close>

theorem Config_get_total_witness:
  "fst (Config_get load_defaults (str ''app.port'') PNone) = Inr (PInt 8080)
   \<and> fst (Config_get load_defaults (str ''nonexistent.key'') (PStr (str ''default_value'')))
       = Inr (PStr (str ''default_value''))
   \<and> fst (Config_get load_defaults (str ''app.name.first'') (PInt 7)) = Inr (PInt 7)
   \<and> snd (Config_get load_defaults (str ''app.name.first'') (PInt 7)) = load_defaults"
proof -
  have t1: "traverse (PDict (config load_defaults)) (split_on (ch CHR ''.'') (str ''app.port''))
            = Inr (PInt 8080)"
    by (simp add: load_defaults_def)
  have t2: "traverse (PDict (config load_defaults))
              (split_on (ch CHR ''.'') (str ''nonexistent.key'')) = Inl KeyError"
    by (simp add: load_defaults_def)
  have t3: "traverse (PDict (config load_defaults))
              (split_on (ch CHR ''.'') (str ''app.name.first'')) = Inl TypeError"
    by (simp add: load_defaults_def)
  from Config_get_total [of load_defaults "str ''app.port''" PNone] t1
  have a: "fst (Config_get load_defaults (str ''app.port'') PNone) = Inr (PInt 8080)"
    by blast
  from Config_get_total [of load_defaults "str ''nonexistent.key''" "PStr (str ''default_value'')"] t2
  have b: "fst (Config_get load_defaults (str ''nonexistent.key'') (PStr (str ''default_value'')))
           = Inr (PStr (str ''default_value''))"
    by blast
  from Config_get_total [of load_defaults "str ''app.name.first''" "PInt 7"] t3
  have c: "fst (Config_get load_defaults (str ''app.name.first'') (PInt 7)) = Inr (PInt 7)
           \<and> snd (Config_get load_defaults (str ''app.name.first'') (PInt 7)) = load_defaults"
    by blast
  from a b c show ?thesis by blast
qed

section \<open>Properties of the timestamp format\<close>

subsection \<open>Decimal fields\<close>

lemma length_digits [simp]: "length (digits w n) = w"
  by (induction w arbitrary: n) auto

lemma digits_all: "list_all is_digit (digits w n)"
  by (induction w arbitrary: n) (auto simp: is_digit_def)

lemma fold_digits: "fold (\<lambda>c a. a * 10 + (c - 48)) (digits w n) 0 = n mod 10 ^ w"
proof (induction w arbitrary: n)
  case 0
  then show ?case by simp
next
  case (Suc w)
  have "n mod (10 * 10 ^ w) = 10 * (n div 10 mod 10 ^ w) + n mod 10"
    by (rule mod_mult2_eq)
  with Suc show ?case by (simp add: mult.commute)
qed

lemma parse_digits_digits:
  "0 < w \<Longrightarrow> n < 10 ^ w \<Longrightarrow> parse_digits (digits w n) = Some n"
proof -
  assume w: "0 < w" and n: "n < 10 ^ w"
  from w have "digits w n \<noteq> []" by (metis length_digits length_greater_0_conv)
  with fold_digits [of w n] n show ?thesis
    by (simp add: parse_digits_def digits_all)
qed

lemma length_dec_le: "n < 10 ^ w \<Longrightarrow> 0 < w \<Longrightarrow> length (dec n) \<le> w"
proof (induction n arbitrary: w rule: dec.induct)
  case (1 n)
  show ?case
  proof (cases "n < 10")
    case True
    with 1 show ?thesis by (subst dec.simps) simp
  next
    case False
    with 1(2,3) obtain v where w: "w = Suc v" by (cases w) auto
    with False 1(2) have v: "0 < v" by (cases v) auto
    from 1(2) w have "n div 10 < 10 ^ v" by (simp add: less_mult_imp_div_less mult.commute)
    with 1(1) False v have "length (dec (n div 10)) \<le> v" by simp
    with False w show ?thesis by (simp add: dec.simps [of n])
  qed
qed

lemma zpad_digits: "0 < w \<Longrightarrow> n < 10 ^ w \<Longrightarrow> zpad w n = digits w n"
proof (induction n arbitrary: w rule: dec.induct)
  case (1 n)
  from 1(2) obtain v where w: "w = Suc v" by (cases w) auto
  show ?case
  proof (cases "n < 10")
    case True
    have "digits v 0 = replicate v 48"
      by (induction v) (auto simp: replicate_append_same)
    with True w show ?thesis
      by (simp add: zpad_def dec.simps [of n] replicate_append_same)
  next
    case False
    with 1(3) w have v: "0 < v" by (cases v) auto
    from 1(3) w have lt: "n div 10 < 10 ^ v" by (simp add: less_mult_imp_div_less mult.commute)
    with 1(1) False v have ih: "zpad v (n div 10) = digits v (n div 10)" by simp
    from length_dec_le [OF lt v] have "Suc v - Suc (length (dec (n div 10))) = v - length (dec (n div 10))"
      by simp
    with ih False w show ?thesis
      by (simp add: zpad_def Let_def dec.simps [of n])
  qed
qed

subsection \<open>Parsing what was formatted\<close>

lemma digits_is_digit: "c \<in> set (digits w n) \<Longrightarrow> is_digit c"
  using digits_all [of w n] by (simp add: list_all_iff)

lemma digits_not_sep [simp]:
  "45 \<notin> set (digits w n)" "43 \<notin> set (digits w n)"
  by (auto dest: digits_is_digit simp: is_digit_def)

lemma parse_date_digits:
  assumes "y < 10000" "m < 100" "d < 100"
  shows "parse_isoformat_date (digits 4 y @ 45 # digits 2 m @ 45 # digits 2 d) = Some (y, m, d)"
  using assms by (simp add: parse_isoformat_date_def nth_append parse_digits_digits)

lemma parse_hh_mm:
  assumes "h < 100" "m < 100"
  shows "parse_hh_mm_ss_ff (digits 2 h @ 58 # digits 2 m) = Some (h, m, 0, 0)"
  using assms by (simp add: parse_hh_mm_ss_ff_def nth_append parse_digits_digits)

lemma parse_hh_mm_ss:
  assumes "h < 100" "m < 100" "s < 100"
  shows "parse_hh_mm_ss_ff (digits 2 h @ 58 # digits 2 m @ 58 # digits 2 s) = Some (h, m, s, 0)"
  using assms by (simp add: parse_hh_mm_ss_ff_def nth_append parse_digits_digits)

lemma parse_hh_mm_ss_frac:
  assumes "h < 100" "m < 100" "s < 100" "u < 1000000"
  shows "parse_hh_mm_ss_ff (digits 2 h @ 58 # digits 2 m @ 58 # digits 2 s @ 46 # digits 6 u)
         = Some (h, m, s, u)"
  using assms by (simp add: parse_hh_mm_ss_ff_def nth_append parse_digits_digits)

lemma parse_time_naive:
  assumes "parse_hh_mm_ss_ff T = Some (h, m, s, u)" "2 \<le> length T"
    "45 \<notin> set T" "43 \<notin> set T"
  shows "parse_isoformat_time T = Some (h, m, s, u, None)"
  using assms by (simp add: parse_isoformat_time_def)

lemma takeWhile_until: "c \<notin> set T \<Longrightarrow> takeWhile (\<lambda>x. x \<noteq> c) (T @ c # Z) = T"
  by (induction T) auto

lemma dropWhile_until: "c \<notin> set T \<Longrightarrow> dropWhile (\<lambda>x. x \<noteq> c) (T @ c # Z) = c # Z"
  by (induction T) auto

lemma parse_time_offset:
  assumes "parse_hh_mm_ss_ff T = Some (h, m, s, u)"
    "45 \<notin> set T" "43 \<notin> set T" "45 \<notin> set Z" "c = 45 \<or> c = 43"
    "length Z = 5 \<or> length Z = 8 \<or> length Z = 15"
    "parse_hh_mm_ss_ff Z = Some (th, tm, ts, tf)"
  shows "parse_isoformat_time (T @ c # Z)
         = Some (h, m, s, u,
                 Some (if c = 45 then - int ((th * 3600 + tm * 60 + ts) * 1000000 + tf)
                       else int ((th * 3600 + tm * 60 + ts) * 1000000 + tf)))"
proof -
  from assms(2,3,5) have tw: "takeWhile (\<lambda>x. x \<noteq> c) (T @ c # Z) = T"
    by (auto intro: takeWhile_until)
  from assms(2,3,5) have dw: "dropWhile (\<lambda>x. x \<noteq> c) (T @ c # Z) = c # Z"
    by (auto intro: dropWhile_until)
  from assms(6) have nz: "Z \<noteq> []" by auto
  show ?thesis
  proof (cases "c = 45")
    case True
    with assms tw dw nz show ?thesis
      by (simp add: parse_isoformat_time_def Let_def)
  next
    case False
    with assms(5) have c: "c = 43" by simp
    with assms tw dw nz show ?thesis
      by (simp add: parse_isoformat_time_def Let_def)
  qed
qed


lemma format_time_digits:
  assumes "h < 100" "m < 100" "s < 100" "u < 1000000"
  shows "format_time h m s u
         = digits 2 h @ 58 # digits 2 m @ 58 # digits 2 s @ (if u \<noteq> 0 then 46 # digits 6 u else [])"
  using assms by (simp add: format_time_def zpad_digits)

lemma format_time_parse:
  assumes "h < 100" "m < 100" "s < 100" "u < 1000000"
  shows "parse_hh_mm_ss_ff (format_time h m s u) = Some (h, m, s, u)"
    and "45 \<notin> set (format_time h m s u)"
    and "43 \<notin> set (format_time h m s u)"
    and "2 \<le> length (format_time h m s u)"
  using assms by (simp_all add: format_time_digits parse_hh_mm_ss parse_hh_mm_ss_frac)

lemma format_offset_parse:
  assumes "valid_offset off"
  shows "\<exists>c Z th tm ts tf.
           format_offset (Some off) = c # Z \<and> (c = 45 \<or> c = 43) \<and> 45 \<notin> set Z
           \<and> (length Z = 5 \<or> length Z = 8 \<or> length Z = 15)
           \<and> parse_hh_mm_ss_ff Z = Some (th, tm, ts, tf)
           \<and> (if c = 45 then - int ((th * 3600 + tm * 60 + ts) * 1000000 + tf)
                else int ((th * 3600 + tm * 60 + ts) * 1000000 + tf)) = off"
proof -
  define a where "a = nat \<bar>off\<bar>"
  define hh where "hh = a div 3600000000"
  define r where "r = a mod 3600000000"
  define mm where "mm = r div 60000000"
  define ss where "ss = r mod 60000000"
  define q where "q = ss div 1000000"
  define f where "f = ss mod 1000000"
  define c :: nat where "c = (if off < 0 then 45 else 43)"
  from assms have a: "a < 86400000000" by (auto simp: a_def valid_offset_def)
  have e1: "a = hh * 3600000000 + r" by (simp add: hh_def r_def)
  have e2: "r = mm * 60000000 + ss" by (simp add: mm_def ss_def)
  have e3: "ss = q * 1000000 + f" by (simp add: q_def f_def)
  have r: "r < 3600000000" by (simp add: r_def)
  have ss: "ss < 60000000" by (simp add: ss_def)
  have s2: "f < 1000000" by (simp add: f_def)
  from a e1 have hh: "hh < 100" by linarith
  from r e2 have mm: "mm < 100" by linarith
  from ss e3 have s1: "q < 100" by linarith
  from e1 e2 e3 have dec: "a = (hh * 3600 + mm * 60 + q) * 1000000 + f"
    by (simp add: algebra_simps)
  have sgn: "(if c = 45 then - int a else int a) = off"
    by (auto simp: c_def a_def)
  have c45: "c = 45 \<or> c = 43" by (simp add: c_def)
  have fo: "format_offset (Some off)
            = c # digits 2 hh @ 58 # digits 2 mm
              @ (if ss \<noteq> 0 then 58 # digits 2 q @ (if f \<noteq> 0 then 46 # digits 6 f else [])
                 else [])"
    using hh mm s1 s2
    by (simp add: format_offset_def Let_def zpad_digits
        a_def [symmetric] hh_def [symmetric] r_def [symmetric] mm_def [symmetric]
        ss_def [symmetric] q_def [symmetric] f_def [symmetric] c_def)
  consider (z) "ss = 0" | (s) "ss \<noteq> 0" "f = 0" | (u) "ss \<noteq> 0" "f \<noteq> 0" by blast
  then show ?thesis
  proof cases
    case z
    with e3 have qf: "q = 0" "f = 0" by auto
    from z fo have "format_offset (Some off) = c # (digits 2 hh @ 58 # digits 2 mm)" by simp
    moreover have "parse_hh_mm_ss_ff (digits 2 hh @ 58 # digits 2 mm) = Some (hh, mm, 0, 0)"
      using hh mm by (rule parse_hh_mm)
    moreover have "(if c = 45 then - int ((hh * 3600 + mm * 60 + 0) * 1000000 + 0)
           else int ((hh * 3600 + mm * 60 + 0) * 1000000 + 0)) = off"
    proof -
      have x: "(hh * 3600 + mm * 60 + 0) * 1000000 + 0 = a" using dec qf by simp
      show ?thesis unfolding x by (rule sgn)
    qed
    ultimately show ?thesis using c45 by (intro exI conjI) (assumption | simp)+
  next
    case s
    with fo have "format_offset (Some off)
                  = c # (digits 2 hh @ 58 # digits 2 mm @ 58 # digits 2 q)" by simp
    moreover have "parse_hh_mm_ss_ff (digits 2 hh @ 58 # digits 2 mm @ 58 # digits 2 q)
                   = Some (hh, mm, q, 0)"
      using hh mm s1 by (rule parse_hh_mm_ss)
    moreover have "(if c = 45 then - int ((hh * 3600 + mm * 60 + q) * 1000000 + 0)
           else int ((hh * 3600 + mm * 60 + q) * 1000000 + 0)) = off"
    proof -
      have x: "(hh * 3600 + mm * 60 + q) * 1000000 + 0 = a" using dec s by simp
      show ?thesis unfolding x by (rule sgn)
    qed
    ultimately show ?thesis using c45 by (intro exI conjI) (assumption | simp)+
  next
    case u
    with fo have "format_offset (Some off)
                  = c # (digits 2 hh @ 58 # digits 2 mm @ 58 # digits 2 q @ 46 # digits 6 f)"
      by simp
    moreover have "parse_hh_mm_ss_ff (digits 2 hh @ 58 # digits 2 mm @ 58 # digits 2 q
                         @ 46 # digits 6 f) = Some (hh, mm, q, f)"
      using hh mm s1 s2 by (rule parse_hh_mm_ss_frac)
    moreover have "(if c = 45 then - int ((hh * 3600 + mm * 60 + q) * 1000000 + f)
           else int ((hh * 3600 + mm * 60 + q) * 1000000 + f)) = off"
      unfolding dec [symmetric] by (rule sgn)
    ultimately show ?thesis using c45 by (intro exI conjI) (assumption | simp)+
  qed
qed


lemma isoformat_split:
  assumes "valid_datetime d"
  shows "isoformat d
         = (digits 4 (year d) @ 45 # digits 2 (month d) @ 45 # digits 2 (day d)) @ 84
           # (format_time (hour d) (minute d) (second d) (microsecond d) @ format_offset (tzinfo d))"
proof -
  from assms have "year d < 10 ^ 4" "month d < 10 ^ 2" "day d < 10 ^ 2"
    by (auto simp: valid_datetime_def days_in_month_def split: if_splits)
  then show ?thesis by (simp add: isoformat_def zpad_digits)
qed

lemma parse_time_format:
  assumes "h < 100" "m < 100" "s < 100" "u < 1000000"
    and "case tz of None \<Rightarrow> True | Some off \<Rightarrow> valid_offset off"
  shows "parse_isoformat_time (format_time h m s u @ format_offset tz) = Some (h, m, s, u, tz)"
proof (cases tz)
  case None
  with format_time_parse [OF assms(1-4)] show ?thesis
    by (simp add: format_offset_def parse_time_naive)
next
  case (Some off)
  with assms(5) have "valid_offset off" by simp
  from format_offset_parse [OF this] obtain c Z th tm ts tf where
    fo: "format_offset (Some off) = c # Z" and c: "c = 45 \<or> c = 43" and z: "45 \<notin> set Z"
    and l: "length Z = 5 \<or> length Z = 8 \<or> length Z = 15"
    and p: "parse_hh_mm_ss_ff Z = Some (th, tm, ts, tf)"
    and v: "(if c = 45 then - int ((th * 3600 + tm * 60 + ts) * 1000000 + tf)
             else int ((th * 3600 + tm * 60 + ts) * 1000000 + tf)) = off"
    by blast
  from format_time_parse [OF assms(1-4)]
  have "parse_isoformat_time (format_time h m s u @ c # Z)
        = Some (h, m, s, u,
                Some (if c = 45 then - int ((th * 3600 + tm * 60 + ts) * 1000000 + tf)
                      else int ((th * 3600 + tm * 60 + ts) * 1000000 + tf)))"
    using z c l p by (intro parse_time_offset) 
  with fo v Some show ?thesis by simp
qed

text \<open>
  Parsing inverts formatting on every datetime that the library can hold, naive
  or aware, with or without a fraction of a second.
\<close>

lemma fromisoformat_isoformat:
  assumes "valid_datetime d"
  shows "fromisoformat (isoformat d) = Inr d"
proof -
  let ?D = "digits 4 (year d) @ 45 # digits 2 (month d) @ 45 # digits 2 (day d)"
  let ?T = "format_time (hour d) (minute d) (second d) (microsecond d) @ format_offset (tzinfo d)"
  from assms have b: "year d < 10000" "month d < 100" "day d < 100"
    "hour d < 100" "minute d < 100" "second d < 100" "microsecond d < 1000000"
    and tz: "case tzinfo d of None \<Rightarrow> True | Some off \<Rightarrow> valid_offset off"
    by (auto simp: valid_datetime_def days_in_month_def split: if_splits)
  have len: "length ?D = 10" by simp
  have iso: "isoformat d = ?D @ 84 # ?T" using assms by (rule isoformat_split)
  have tk: "take 10 (isoformat d) = ?D" unfolding iso using len by simp
  have dr: "drop 11 (isoformat d) = ?T" unfolding iso using len by simp
  have pd: "parse_isoformat_date ?D = Some (year d, month d, day d)"
    using b(1-3) by (rule parse_date_digits)
  have pt: "parse_isoformat_time ?T
            = Some (hour d, minute d, second d, microsecond d, tzinfo d)"
    using b(4-7) tz by (rule parse_time_format)
  have ne: "format_time (hour d) (minute d) (second d) (microsecond d) \<noteq> []"
    using format_time_parse(4) [OF b(4-7)] by auto
  have new: "datetime_new (year d) (month d) (day d) (hour d) (minute d) (second d)
               (microsecond d) (tzinfo d) = Inr d"
    using assms by (cases d) (simp add: datetime_new_def)
  show ?thesis
    unfolding fromisoformat_def tk dr using pd pt ne new by (simp add: Let_def)
qed

section \<open>Properties of the JSON codec\<close>

subsection \<open>Strings survive encoding and decoding\<close>

lemma hexval_hexdigit: "v < 16 \<Longrightarrow> hexval (hexdigit v) = Some v"
  by (auto simp: hexval_def hexdigit_def)

lemma hex_recompose:
  assumes "n < 65536"
  shows "((n div 4096 mod 16 * 16 + n div 256 mod 16) * 16 + n div 16 mod 16) * 16 + n mod 16 = (n::nat)"
proof -
  define q1 where "q1 = n div 16"
  define q2 where "q2 = q1 div 16"
  define q3 where "q3 = q2 div 16"
  define r0 where "r0 = n mod 16"
  define r1 where "r1 = q1 mod 16"
  define r2 where "r2 = q2 mod 16"
  have e0: "n = 16 * q1 + r0" by (simp add: q1_def r0_def)
  have e1: "q1 = 16 * q2 + r1" by (simp add: q2_def r1_def)
  have e2: "q2 = 16 * q3 + r2" by (simp add: q3_def r2_def)
  from assms e0 e1 e2 have "q3 < 16" by linarith
  then have m: "q3 mod 16 = q3" by simp
  have d: "n div 256 = q2" "n div 4096 = q3"
    by (simp_all add: q1_def q2_def q3_def div_mult2_eq [symmetric])
  have "((q3 * 16 + r2) * 16 + r1) * 16 + r0 = n"
    by (subst e0, subst e1, subst e2) (simp add: algebra_simps)
  then show ?thesis
    unfolding d m by (simp add: q1_def r0_def r1_def r2_def)
qed

lemma decode_hex4_format:
  "n < 65536 \<Longrightarrow> decode_uXXXX (hex4_format n @ R) = Some n"
  using hex_recompose [of n]
  by (simp add: decode_uXXXX_def hex4_format_def hexval_hexdigit)


lemma length_hex4 [simp]: "length (hex4_format n) = 4"
  by (simp add: hex4_format_def)

lemma scan_u_plain:
  assumes "c < 0x10000" "\<not> (0xD800 \<le> c \<and> c \<le> 0xDBFF)"
  shows "scanstring (0x5C # 117 # hex4_format c @ R) = cons_char c (scanstring R)"
  using assms by (auto simp: decode_hex4_format)

lemma scan_u_pair:
  assumes "0x10000 \<le> c" "c < 0x110000"
  shows "scanstring (0x5C # 117 # hex4_format (0xD800 + ((c - 0x10000) div 1024) mod 1024)
                     @ 0x5C # 117 # hex4_format (0xDC00 + (c - 0x10000) mod 1024) @ R)
         = cons_char c (scanstring R)"
proof -
  define n where "n = c - 0x10000"
  define s1 where "s1 = 0xD800 + (n div 1024) mod 1024"
  define s2 where "s2 = 0xDC00 + n mod 1024"
  from assms have n: "n < 1048576" by (simp add: n_def)
  then have hi: "n div 1024 < 1024" by simp
  then have s1: "0xD800 \<le> s1" "s1 \<le> 0xDBFF" "s1 < 65536" by (simp_all add: s1_def)
  have s2: "0xDC00 \<le> s2" "s2 \<le> 0xDFFF" "s2 < 65536" by (simp_all add: s2_def)
  have d1: "decode_uXXXX (hex4_format s1 @ 0x5C # 117 # hex4_format s2 @ R) = Some s1"
    using s1(3) by (rule decode_hex4_format)
  have d2: "decode_uXXXX (hex4_format s2 @ R) = Some s2"
    using s2(3) by (rule decode_hex4_format)
  have t2: "take 2 (drop 4 (hex4_format s1 @ 0x5C # 117 # hex4_format s2 @ R)) = [0x5C, 117]"
    by simp
  have d6: "drop 6 (hex4_format s1 @ 0x5C # 117 # hex4_format s2 @ R) = hex4_format s2 @ R"
    by simp
  have d10: "drop 10 (hex4_format s1 @ 0x5C # 117 # hex4_format s2 @ R) = R"
    by simp
  have "n = 1024 * (n div 1024) + n mod 1024" by simp
  with hi have "(s1 - 0xD800) * 1024 + (s2 - 0xDC00) = n" by (simp add: s1_def s2_def)
  with assms(1) have v: "0x10000 + ((s1 - 0xD800) * 1024 + (s2 - 0xDC00)) = c"
    by (simp add: n_def)
  have "scanstring (0x5C # 117 # hex4_format s1 @ 0x5C # 117 # hex4_format s2 @ R)
        = cons_char c (scanstring R)"
    using s1(1,2) s2(1,2) v
    by (simp add: d1 d2 d6 d10)
  then show ?thesis by (simp add: s1_def s2_def n_def)
qed

lemma scan_escape:
  assumes "is_scalar c"
  shows "scanstring (escape_char c @ R) = cons_char c (scanstring R)"
proof -
  consider (special) "c = 0x5C \<or> c = 0x22 \<or> c = 8 \<or> c = 12 \<or> c = 10 \<or> c = 13 \<or> c = 9"
    | (plain) "0x20 \<le> c" "c \<le> 0x7E" "c \<noteq> 0x5C" "c \<noteq> 0x22"
    | (bmp) "c < 0x20 \<or> 0x7E < c" "c < 0x10000" "c \<noteq> 8" "c \<noteq> 12" "c \<noteq> 10" "c \<noteq> 13" "c \<noteq> 9"
    | (astral) "0x10000 \<le> c"
    by linarith
  then show ?thesis
  proof cases
    case special
    then show ?thesis by (auto simp: escape_char_def backslash_def)
  next
    case plain
    then show ?thesis by (simp add: escape_char_def)
  next
    case bmp
    with assms have ns: "\<not> (0xD800 \<le> c \<and> c \<le> 0xDBFF)" by (auto simp: is_scalar_def)
    from bmp have "escape_char c = 0x5C # 117 # hex4_format c"
      by (auto simp: escape_char_def)
    with scan_u_plain [OF bmp(2) ns] show ?thesis by simp
  next
    case astral
    with assms have lt: "c < 0x110000" by (simp add: is_scalar_def)
    from astral have "escape_char c
        = 0x5C # 117 # hex4_format (0xD800 + ((c - 0x10000) div 1024) mod 1024)
          @ 0x5C # 117 # hex4_format (0xDC00 + (c - 0x10000) mod 1024)"
      by (simp add: escape_char_def Let_def)
    with scan_u_pair [OF astral lt] show ?thesis by simp
  qed
qed

lemma scanstring_escaped:
  "valid_text s \<Longrightarrow> scanstring (concat (map escape_char s) @ 0x22 # R) = Some (s, R)"
  by (induction s) (simp_all add: valid_text_def scan_escape cons_char_def)

lemma scan_once_string:
  "valid_text s \<Longrightarrow> scan_once (Suc n) (encode_basestring_ascii s @ R) = Inr (PStr s, R)"
  by (simp add: scan_once.simps encode_basestring_ascii_def scanstring_escaped)

lemma valid_text_append [simp]: "valid_text (a @ b) = (valid_text a \<and> valid_text b)"
  by (simp add: valid_text_def)

lemma valid_text_Cons [simp]: "valid_text (c # s) = (is_scalar c \<and> valid_text s)"
  by (simp add: valid_text_def)

lemma valid_text_Nil [simp]: "valid_text []"
  by (simp add: valid_text_def)

lemma digit_scalar: "is_digit c \<Longrightarrow> is_scalar c"
  by (simp add: is_digit_def is_scalar_def)

lemma valid_text_digits: "list_all is_digit s \<Longrightarrow> valid_text s"
  by (induction s) (auto simp: digit_scalar)

lemma dec_all_digits: "list_all is_digit (dec n)"
proof (induction n rule: dec.induct)
  case (1 n)
  show ?case
  proof (cases "n < 10")
    case True
    then show ?thesis by (simp add: dec.simps [of n] is_digit_def)
  next
    case False
    with 1 show ?thesis by (simp add: dec.simps [of n] is_digit_def)
  qed
qed

lemma zpad_all_digits: "list_all is_digit (zpad w n)"
proof -
  have "list_all is_digit (replicate k 48)" for k
    by (induction k) (simp_all add: is_digit_def)
  then show ?thesis by (simp add: zpad_def Let_def dec_all_digits)
qed

lemma valid_text_zpad [simp]: "valid_text (zpad w n)"
  by (rule valid_text_digits) (rule zpad_all_digits)

lemma valid_text_isoformat: "valid_text (isoformat d)"
  by (simp add: isoformat_def format_time_def format_offset_def Let_def is_scalar_def
      split: option.split)

lemma skip_ws_nonws: "\<not> is_ws c \<Longrightarrow> skip_ws (c # r) = c # r"
  by (simp add: skip_ws_def)

lemma skip_ws_space: "skip_ws (0x20 # r) = skip_ws r"
  by (simp add: skip_ws_def is_ws_def)

lemma skip_ws_encoded [simp]:
  "skip_ws (encode_basestring_ascii v @ R) = encode_basestring_ascii v @ R"
  by (simp add: skip_ws_def is_ws_def encode_basestring_ascii_def)

lemma object_member_next:
  assumes "valid_text k" "valid_text v"
  shows "JSONObject (Suc (Suc n))
           (concat (map escape_char k) @ 0x22 # str '': '' @ encode_basestring_ascii v
            @ str '', '' @ 0x22 # R) pairs
         = JSONObject (Suc n) R (pairs @ [(k, PStr v)])"
proof -
  have v: "scan_once (Suc n) (encode_basestring_ascii v @ 44 # 32 # 0x22 # R)
           = Inr (PStr v, 44 # 32 # 0x22 # R)"
    using assms(2) by (rule scan_once_string)
  show ?thesis
    using scanstring_escaped [OF assms(1)]
    by (subst JSONObject.simps)
       (simp add: skip_ws_nonws skip_ws_space is_ws_def v)
qed

lemma object_member_last:
  assumes "valid_text k" "valid_text v"
  shows "JSONObject (Suc (Suc n))
           (concat (map escape_char k) @ 0x22 # str '': '' @ encode_basestring_ascii v
            @ str ''}'' @ R) pairs
         = Inr (PDict (dict_of_pairs (pairs @ [(k, PStr v)])), R)"
proof -
  have v: "scan_once (Suc n) (encode_basestring_ascii v @ 125 # R) = Inr (PStr v, 125 # R)"
    using assms(2) by (rule scan_once_string)
  show ?thesis
    using scanstring_escaped [OF assms(1)]
    by (subst JSONObject.simps)
       (simp add: skip_ws_nonws skip_ws_space is_ws_def v)
qed


lemma fuel5: "5 \<le> n \<Longrightarrow> \<exists>k. n = Suc (Suc (Suc (Suc (Suc k))))"
  by presburger

lemma json_loads_envelope:
  assumes "valid_text i" "valid_text t" "valid_text p" "valid_text ts"
  shows "json_loads
           (123 # 0x22 # concat (map escape_char (str ''id'')) @ 0x22 # str '': ''
              @ encode_basestring_ascii i @ str '', '' @ 0x22
            # concat (map escape_char (str ''type'')) @ 0x22 # str '': ''
              @ encode_basestring_ascii t @ str '', '' @ 0x22
            # concat (map escape_char (str ''payload'')) @ 0x22 # str '': ''
              @ encode_basestring_ascii p @ str '', '' @ 0x22
            # concat (map escape_char (str ''timestamp'')) @ 0x22 # str '': ''
              @ encode_basestring_ascii ts @ str ''}'' @ [])
         = Inr (PDict [(str ''id'', PStr i), (str ''type'', PStr t),
                       (str ''payload'', PStr p), (str ''timestamp'', PStr ts)])"
    (is "json_loads ?j = _")
proof -
  let ?s4 = "concat (map escape_char (str ''timestamp'')) @ 0x22 # str '': ''
              @ encode_basestring_ascii ts @ str ''}'' @ []"
  let ?s3 = "concat (map escape_char (str ''payload'')) @ 0x22 # str '': ''
              @ encode_basestring_ascii p @ str '', '' @ 0x22 # ?s4"
  let ?s2 = "concat (map escape_char (str ''type'')) @ 0x22 # str '': ''
              @ encode_basestring_ascii t @ str '', '' @ 0x22 # ?s3"
  let ?s1 = "concat (map escape_char (str ''id'')) @ 0x22 # str '': ''
              @ encode_basestring_ascii i @ str '', '' @ 0x22 # ?s2"
  have "5 \<le> length ?j" by simp
  then obtain k where k: "length ?j = Suc (Suc (Suc (Suc (Suc k))))"
    using fuel5 by blast
  have vk: "valid_text (str ''id'')" "valid_text (str ''type'')"
    "valid_text (str ''payload'')" "valid_text (str ''timestamp'')"
    by (simp_all add: is_scalar_def)
  have m1: "JSONObject (Suc (Suc (Suc (Suc (Suc k))))) ?s1 []
            = JSONObject (Suc (Suc (Suc (Suc k)))) ?s2 ([] @ [(str ''id'', PStr i)])"
    using vk(1) assms(1) by (rule object_member_next)
  have m2: "JSONObject (Suc (Suc (Suc (Suc k)))) ?s2 ([] @ [(str ''id'', PStr i)])
            = JSONObject (Suc (Suc (Suc k))) ?s3
                (([] @ [(str ''id'', PStr i)]) @ [(str ''type'', PStr t)])"
    using vk(2) assms(2) by (rule object_member_next)
  have m3: "JSONObject (Suc (Suc (Suc k))) ?s3
                (([] @ [(str ''id'', PStr i)]) @ [(str ''type'', PStr t)])
            = JSONObject (Suc (Suc k)) ?s4
                ((([] @ [(str ''id'', PStr i)]) @ [(str ''type'', PStr t)])
                 @ [(str ''payload'', PStr p)])"
    using vk(3) assms(3) by (rule object_member_next)
  have m4: "JSONObject (Suc (Suc k)) ?s4
                ((([] @ [(str ''id'', PStr i)]) @ [(str ''type'', PStr t)])
                 @ [(str ''payload'', PStr p)])
            = Inr (PDict (dict_of_pairs
                ((((([] @ [(str ''id'', PStr i)]) @ [(str ''type'', PStr t)])
                 @ [(str ''payload'', PStr p)]) @ [(str ''timestamp'', PStr ts)]))), [])"
    using vk(4) assms(4) by (rule object_member_last)
  have d: "dict_of_pairs
             ((((([] @ [(str ''id'', PStr i)]) @ [(str ''type'', PStr t)])
                 @ [(str ''payload'', PStr p)]) @ [(str ''timestamp'', PStr ts)]))
           = [(str ''id'', PStr i), (str ''type'', PStr t),
              (str ''payload'', PStr p), (str ''timestamp'', PStr ts)]"
    by (simp add: dict_of_pairs_def)
  have so: "scan_once (Suc (Suc (Suc (Suc (Suc (Suc k)))))) (123 # 0x22 # ?s1)
            = JSONObject (Suc (Suc (Suc (Suc (Suc k))))) ?s1 []"
    by (subst scan_once.simps) (simp add: skip_ws_nonws is_ws_def)
  have "scan_once (Suc (length ?j)) (skip_ws ?j)
        = Inr (PDict [(str ''id'', PStr i), (str ''type'', PStr t),
                      (str ''payload'', PStr p), (str ''timestamp'', PStr ts)], [])"
    unfolding k
    by (simp only: skip_ws_nonws [of 123, unfolded is_ws_def, simplified] so m1 m2 m3 m4 d)
  then show ?thesis
    by (simp add: json_loads_def skip_ws_def)
qed

text \<open>Rules that run the decoder and the timestamp parser on a concrete text.\<close>

lemma fuel_numeral:
  "scan_once (numeral k) s = scan_once (Suc (pred_numeral k)) s"
  "JSONObject (numeral k) s ps = JSONObject (Suc (pred_numeral k)) s ps"
  "JSONArray (numeral k) s vs = JSONArray (Suc (pred_numeral k)) s vs"
  by (simp_all only: numeral_eq_Suc)

lemmas json_eval = json_loads_def scan_once.simps JSONObject.simps JSONArray.simps fuel_numeral
  skip_ws_def is_ws_def match_number_def match_int_def match_frac_def match_exp_def
  is_digit_def digits_val_def dict_of_pairs_def backslash_def decode_uXXXX_def hexval_def
  cons_char_def float_of_literal_def

lemmas iso_eval = fromisoformat_def parse_isoformat_date_def parse_isoformat_time_def
  parse_hh_mm_ss_ff_def parse_digits_def datetime_new_def valid_datetime_def
  days_in_month_def is_leap_def valid_offset_def datetime_fromisoformat_def

section \<open>Properties of the message envelope\<close>

subsection \<open>Round trip\<close>

text \<open>
  Claim C1. For every valid envelope \<open>E\<close> (id, type and payload are strings, the
  id not empty, the timestamp a datetime), serialization succeeds, and
  deserializing the text gives back an envelope equal to \<open>E\<close> in all four
  fields: id, type, payload and timestamp. The timestamp comes back with every
  digit it was written with, down to the microsecond, and with its UTC offset.
  Nothing is drawn from the surroundings \<open>e\<close>: no fresh id, no clock reading.
\<close>

theorem to_json_from_json:
  assumes "valid_envelope E"
  shows "\<exists>j. to_json E = Inr j \<and> from_json e j = Inr E"
proof -
  from assms obtain i t p where
    f: "msg_id E = PStr i" "msg_type E = PStr t" "payload E = PStr p"
    and v: "i \<noteq> []" "valid_text i" "valid_text t" "valid_text p"
      "valid_datetime (timestamp E)"
    by (auto simp: valid_envelope_def split: pyval.splits)
  let ?ts = "isoformat (timestamp E)"
  let ?j = "123 # 0x22 # concat (map escape_char (str ''id'')) @ 0x22 # str '': ''
              @ encode_basestring_ascii i @ str '', '' @ 0x22
            # concat (map escape_char (str ''type'')) @ 0x22 # str '': ''
              @ encode_basestring_ascii t @ str '', '' @ 0x22
            # concat (map escape_char (str ''payload'')) @ 0x22 # str '': ''
              @ encode_basestring_ascii p @ str '', '' @ 0x22
            # concat (map escape_char (str ''timestamp'')) @ 0x22 # str '': ''
              @ encode_basestring_ascii ?ts @ str ''}'' @ []"
  have dumps: "to_json E = Inr ?j"
    by (simp add: to_json_def to_dict_def f encode_basestring_ascii_def escape_char_def)
  have loads: "json_loads ?j
               = Inr (PDict [(str ''id'', PStr i), (str ''type'', PStr t),
                             (str ''payload'', PStr p), (str ''timestamp'', PStr ?ts)])"
    using v(2-4) valid_text_isoformat by (rule json_loads_envelope)
  have iso: "fromisoformat ?ts = Inr (timestamp E)"
    using v(5) by (rule fromisoformat_isoformat)
  have init: "TestMessage_init e (PStr i) (PStr t) (PStr p) (Some (timestamp E)) = E"
    using v(1) f by (cases E) (simp add: TestMessage_init_def)
  have "from_json e ?j = Inr E"
    unfolding from_json_def loads
    by (simp add: datetime_fromisoformat_def iso init)
  with dumps show ?thesis by blast
qed

theorem to_json_from_json_witness:
  "valid_envelope envelope0
   \<and> (\<exists>j. to_json envelope0 = Inr j \<and> from_json env0 j = Inr envelope0)"
proof -
  have v: "valid_envelope envelope0"
    by (simp add: valid_envelope_def envelope0_def valid_text_def is_scalar_def
        valid_datetime_def days_in_month_def is_leap_def valid_offset_def)
  from to_json_from_json [OF v, of env0] v show ?thesis by blast
qed

text \<open>
  The text of a plain envelope, computed: the four keys in the order of
  \<^verbatim>\<open>to_dict\<close>, the separators of the library, the timestamp in ISO form.
\<close>

lemma replicate_three: "replicate 3 x = [x, x, x]"
  by (simp only: numeral_3_eq_3 replicate.simps)

lemma to_json_example:
  \<open>to_json \<lparr> msg_id = PStr (str ''order-007''), msg_type = PStr (str ''ordering_test''),
             payload = PStr (str ''BTCUSDT''),
             timestamp = \<lparr> year = 2024, month = 1, day = 15, hour = 10, minute = 30,
                           second = 0, microsecond = 250, tzinfo = None \<rparr> \<rparr>
   = Inr (str ''{"id": "order-007", "type": "ordering_test", "payload": "BTCUSDT", "timestamp": "2024-01-15T10:30:00.000250"}'')\<close>
  by (simp add: to_json_def to_dict_def encode_basestring_ascii_def escape_char_def
      isoformat_def format_time_def format_offset_def zpad_def dec.simps replicate_three)

text \<open>
  Why a valid envelope has an id that is not empty: the constructor, which
  \<^verbatim>\<open>from_json\<close> calls, replaces an empty id by a fresh one.
\<close>

lemma from_json_empty_id:
  "from_json env0 wire_empty_id
   = Inr \<lparr> msg_id = PStr (uuid4 env0), msg_type = PStr (str ''t''), payload = PStr (str ''p''),
           timestamp = \<lparr> year = 2024, month = 1, day = 15, hour = 10, minute = 30,
                         second = 0, microsecond = 0, tzinfo = None \<rparr> \<rparr>"
  by (simp add: from_json_def wire_empty_id_def json_eval iso_eval TestMessage_init_def)

subsection \<open>Malformed input\<close>







end
